theory Spec2Isabelle
  imports Main
begin

section \<open>The tooltip state chart of src/index.js\<close>

text \<open>
  The module keeps one global machine state, two timer handles and a list of
  subscriptions. The model threads all of them through every function as one record
  \<open>global\<close>. The context objects of the machine state live in a store (\<open>heap\<close>),
  because \<^verbatim>\<open>clearContextId\<close> writes through the global \<^verbatim>\<open>state.context\<close>
  reference while \<^verbatim>\<open>transition\<close> holds a second reference to the same object.
\<close>

subsection \<open>States, events, objects\<close>

datatype TooltipStates = IDLE | FOCUSED | VISIBLE | LEAVINGVISIBLE | DISMISSED

datatype TooltipEvents =
  BLUR | FOCUS | GLOBALMOUSEMOVE | MOUSEDOWN | MOUSEENTER | MOUSELEAVE | MOUSEMOVE
  | REST | SELECTWITHKEYBOARD | TIMECOMPLETE

text \<open>\<^verbatim>\<open>StateContext\<close>: the object \<^verbatim>\<open>{ id }\<close>; \<open>None\<close> is \<^verbatim>\<open>null\<close>.\<close>

record StateContext =
  ctx_id :: "string option"

text \<open>
  \<^verbatim>\<open>MachineEvent\<close>: \<^verbatim>\<open>{ type, id? }\<close>. \<open>ev_id = None\<close> is an event object
  without an \<^verbatim>\<open>id\<close> key, \<open>Some v\<close> one whose \<^verbatim>\<open>id\<close> is \<open>v\<close>.
\<close>

record MachineEvent =
  ev_type :: TooltipEvents
  ev_id :: "string option option"

type_synonym addr = nat

text \<open>\<^verbatim>\<open>StateObject\<close>: \<^verbatim>\<open>{ value, context }\<close>, the context held by reference.\<close>

record StateObject =
  st_value :: TooltipStates
  st_context :: addr

text \<open>A pending \<^verbatim>\<open>window.setTimeout\<close>: its handle, the time it is due, and the event
  its callback sends (both callbacks of the module are \<^verbatim>\<open>() => send({ type })\<close>).\<close>

record timeout =
  t_handle :: nat
  t_due :: nat
  t_event :: MachineEvent

text \<open>What calling a listener does to the subscription list: it may subscribe a
  function, or call the clean-up function that \<^verbatim>\<open>subscribe\<close> returned for one.\<close>

datatype sub_op = Subscribe nat | Unsubscribe nat

text \<open>The observation log: the calls the machine makes, in the order it makes them,
  each with its arguments. The log is not a variable of the module and nothing reads it;
  it is there to state in which order \<^verbatim>\<open>send\<close> works.\<close>

datatype call =
  LeaveCalled TooltipStates addr MachineEvent
  | ContextMerged addr StateContext
  | EnterCalled TooltipStates addr MachineEvent
  | Committed StateObject
  | ListenerCalled nat StateObject

text \<open>
  The module's variables are \<open>state\<close>, \<open>subscriptions\<close>, \<open>restTimeout\<close> and
  \<open>leavingVisibleTimer\<close>. \<open>heap\<close> and \<open>next_addr\<close> are the store of context
  objects; \<open>now\<close>, \<open>timeouts\<close> and \<open>next_handle\<close> are the window's clock and
  pending timeouts; \<open>listener_body\<close> gives, for each listener function, what a call of
  it does to the subscription list; \<open>calls\<close> is the log.
\<close>

record global =
  heap :: "addr \<Rightarrow> StateContext"
  next_addr :: addr
  state :: StateObject
  subscriptions :: "nat list"
  listener_body :: "nat \<Rightarrow> sub_op list"
  restTimeout :: "nat option"
  leavingVisibleTimer :: "nat option"
  now :: nat
  timeouts :: "timeout list"
  next_handle :: nat
  calls :: "call list"

definition observe :: "call \<Rightarrow> global \<Rightarrow> global" where
  "observe c g = g\<lparr>calls := calls g @ [c]\<rparr>"

subsection \<open>The window's timers\<close>

text \<open>\<^verbatim>\<open>window.clearTimeout(h)\<close>: drops the pending timeout with that handle;
  an undefined handle (\<open>None\<close>) or one that is not pending changes nothing.\<close>

definition clearTimeout :: "nat option \<Rightarrow> global \<Rightarrow> global" where
  "clearTimeout h g = g\<lparr>timeouts := filter (\<lambda>t. Some (t_handle t) \<noteq> h) (timeouts g)\<rparr>"

text \<open>\<^verbatim>\<open>window.setTimeout(cb, delay)\<close>: registers the callback under a fresh handle
  and returns the handle.\<close>

definition setTimeout :: "MachineEvent \<Rightarrow> nat \<Rightarrow> global \<Rightarrow> nat \<times> global" where
  "setTimeout ev delay g =
     (next_handle g,
      g\<lparr>timeouts := timeouts g @ [\<lparr>t_handle = next_handle g, t_due = now g + delay, t_event = ev\<rparr>],
        next_handle := Suc (next_handle g)\<rparr>)"

definition REST_TIMEOUT :: nat where
  "REST_TIMEOUT = 100"

definition LEAVE_TIMEOUT :: nat where
  "LEAVE_TIMEOUT = 500"

definition startRestTimer :: "global \<Rightarrow> global" where
  "startRestTimer g =
     (let g1 = clearTimeout (restTimeout g) g;
          (h, g2) = setTimeout \<lparr>ev_type = REST, ev_id = None\<rparr> REST_TIMEOUT g1
      in g2\<lparr>restTimeout := Some h\<rparr>)"

definition clearRestTimer :: "global \<Rightarrow> global" where
  "clearRestTimer g = clearTimeout (restTimeout g) g"

definition startLeavingVisibleTimer :: "global \<Rightarrow> global" where
  "startLeavingVisibleTimer g =
     (let g1 = clearTimeout (leavingVisibleTimer g) g;
          (h, g2) = setTimeout \<lparr>ev_type = TIMECOMPLETE, ev_id = None\<rparr> LEAVE_TIMEOUT g1
      in g2\<lparr>leavingVisibleTimer := Some h\<rparr>)"

definition clearLeavingVisibleTimer :: "global \<Rightarrow> global" where
  "clearLeavingVisibleTimer g = clearTimeout (leavingVisibleTimer g) g"

subsection \<open>The chart\<close>

text \<open>\<^verbatim>\<open>state.context.id = null\<close>: a write through the global \<^verbatim>\<open>state\<close> into the
  context object it references at that moment.\<close>

definition clearContextId :: "global \<Rightarrow> global" where
  "clearContextId g =
     g\<lparr>heap := (heap g)(st_context (state g) := (heap g (st_context (state g)))\<lparr>ctx_id := None\<rparr>)\<rparr>"

text \<open>\<^verbatim>\<open>chart.states[s].on[e]\<close>\<close>

fun chart_on :: "TooltipStates \<Rightarrow> TooltipEvents \<Rightarrow> TooltipStates option" where
  "chart_on IDLE MOUSEENTER = Some FOCUSED"
| "chart_on IDLE FOCUS = Some VISIBLE"
| "chart_on FOCUSED MOUSEMOVE = Some FOCUSED"
| "chart_on FOCUSED MOUSELEAVE = Some IDLE"
| "chart_on FOCUSED MOUSEDOWN = Some DISMISSED"
| "chart_on FOCUSED BLUR = Some IDLE"
| "chart_on FOCUSED REST = Some VISIBLE"
| "chart_on VISIBLE FOCUS = Some FOCUSED"
| "chart_on VISIBLE MOUSEENTER = Some FOCUSED"
| "chart_on VISIBLE MOUSELEAVE = Some LEAVINGVISIBLE"
| "chart_on VISIBLE BLUR = Some LEAVINGVISIBLE"
| "chart_on VISIBLE MOUSEDOWN = Some DISMISSED"
| "chart_on VISIBLE SELECTWITHKEYBOARD = Some DISMISSED"
| "chart_on VISIBLE GLOBALMOUSEMOVE = Some LEAVINGVISIBLE"
| "chart_on LEAVINGVISIBLE MOUSEENTER = Some VISIBLE"
| "chart_on LEAVINGVISIBLE FOCUS = Some VISIBLE"
| "chart_on LEAVINGVISIBLE TIMECOMPLETE = Some IDLE"
| "chart_on DISMISSED MOUSELEAVE = Some IDLE"
| "chart_on DISMISSED BLUR = Some IDLE"
| "chart_on _ _ = None"

text \<open>An \<^verbatim>\<open>ActionFunction\<close> is called with a context reference and the event; none
  of the chart's actions reads either argument.\<close>

type_synonym ActionFunction = "addr \<Rightarrow> MachineEvent \<Rightarrow> global \<Rightarrow> global"

fun chart_enter :: "TooltipStates \<Rightarrow> ActionFunction option" where
  "chart_enter IDLE = Some (\<lambda>_ _. clearContextId)"
| "chart_enter FOCUSED = Some (\<lambda>_ _. startRestTimer)"
| "chart_enter VISIBLE = None"
| "chart_enter LEAVINGVISIBLE = Some (\<lambda>_ _. startLeavingVisibleTimer)"
| "chart_enter DISMISSED = None"

fun chart_leave :: "TooltipStates \<Rightarrow> ActionFunction option" where
  "chart_leave IDLE = None"
| "chart_leave FOCUSED = Some (\<lambda>_ _. clearRestTimer)"
| "chart_leave VISIBLE = None"
| "chart_leave LEAVINGVISIBLE = Some (\<lambda>_ _ g. clearContextId (clearLeavingVisibleTimer g))"
| "chart_leave DISMISSED = Some (\<lambda>_ _ g. clearContextId g)"

text \<open>The module's initial values: \<^verbatim>\<open>state = { value: chart.initial, context: { id: null } }\<close>,
  no subscription, both timer handles undefined. The listeners' bodies are given.\<close>

definition init :: "(nat \<Rightarrow> sub_op list) \<Rightarrow> global" where
  "init bodies =
     \<lparr>heap = (\<lambda>_. \<lparr>ctx_id = None\<rparr>), next_addr = 1,
      state = \<lparr>st_value = IDLE, st_context = 0\<rparr>,
      subscriptions = [], listener_body = bodies,
      restTimeout = None, leavingVisibleTimer = None,
      now = 0, timeouts = [], next_handle = 1, calls = []\<rparr>"

text \<open>The context object that \<^verbatim>\<open>state\<close> references has been allocated: the next
  object literal gets an address of its own.\<close>

definition wf_store :: "global \<Rightarrow> bool" where
  "wf_store g = (st_context (state g) < next_addr g)"

subsection \<open>Subscriptions\<close>

definition subscribe :: "nat \<Rightarrow> global \<Rightarrow> global" where
  "subscribe fn g = g\<lparr>subscriptions := subscriptions g @ [fn]\<rparr>"

text \<open>\<^verbatim>\<open>indexOf\<close>: the first index of the element, \<open>None\<close> for \<^verbatim>\<open>-1\<close>.\<close>

fun indexOf :: "nat list \<Rightarrow> nat \<Rightarrow> nat option" where
  "indexOf [] x = None"
| "indexOf (y # ys) x = (if y = x then Some 0 else map_option Suc (indexOf ys x))"

text \<open>The clean-up function returned by \<^verbatim>\<open>subscribe(fn)\<close>:
  \<^verbatim>\<open>subscriptions.splice(subscriptions.indexOf(fn), 1)\<close>. With \<^verbatim>\<open>-1\<close> as its start,
  \<^verbatim>\<open>splice\<close> removes the last element of the array.\<close>

definition unsubscribe :: "nat \<Rightarrow> global \<Rightarrow> global" where
  "unsubscribe fn g =
     g\<lparr>subscriptions :=
        (case indexOf (subscriptions g) fn of
           None \<Rightarrow> butlast (subscriptions g)
         | Some i \<Rightarrow> take i (subscriptions g) @ drop (Suc i) (subscriptions g))\<rparr>"

fun run_op :: "sub_op \<Rightarrow> global \<Rightarrow> global" where
  "run_op (Subscribe fn) g = subscribe fn g"
| "run_op (Unsubscribe fn) g = unsubscribe fn g"

text \<open>\<^verbatim>\<open>fn(state)\<close> for a listener \<open>fn\<close>.\<close>

definition call_listener :: "nat \<Rightarrow> global \<Rightarrow> global" where
  "call_listener fn g =
     fold run_op (listener_body g fn) (observe (ListenerCalled fn (state g)) g)"

text \<open>\<^verbatim>\<open>Array.prototype.forEach\<close>: the length is read once, then every index below
  it is visited in order, and the callback is called for the indices that the array
  still has at that moment. \<open>forEach n k\<close> visits the \<open>n\<close> indices from \<open>k\<close> on.\<close>

fun forEach :: "nat \<Rightarrow> nat \<Rightarrow> global \<Rightarrow> global" where
  "forEach 0 k g = g"
| "forEach (Suc n) k g =
     forEach n (Suc k)
       (if k < length (subscriptions g) then call_listener (subscriptions g ! k) g else g)"

definition notify :: "global \<Rightarrow> global" where
  "notify g = forEach (length (subscriptions g)) 0 g"

text \<open>A listener operation that adds a subscriber (and removes none).\<close>

fun adds_only :: "sub_op \<Rightarrow> bool" where
  "adds_only (Subscribe fn) = True"
| "adds_only (Unsubscribe fn) = False"

subsection \<open>transition and send\<close>

text \<open>\<^verbatim>\<open>const { type: _, ...payload } = event; { ...ctx, ...payload }\<close>\<close>

definition merge_payload :: "StateContext \<Rightarrow> MachineEvent \<Rightarrow> StateContext" where
  "merge_payload ctx event =
     (case ev_id event of None \<Rightarrow> ctx | Some v \<Rightarrow> ctx\<lparr>ctx_id := v\<rparr>)"

text \<open>An object literal allocates a new context object.\<close>

definition new_context :: "StateContext \<Rightarrow> global \<Rightarrow> addr \<times> global" where
  "new_context c g =
     (next_addr g,
      observe (ContextMerged (next_addr g) c)
        (g\<lparr>heap := (heap g)(next_addr g := c), next_addr := Suc (next_addr g)\<rparr>))"

text \<open>\<^verbatim>\<open>if (stateDef && stateDef.leave) stateDef.leave(currentState.context, event)\<close>\<close>

definition run_leave :: "TooltipStates \<Rightarrow> addr \<Rightarrow> MachineEvent \<Rightarrow> global \<Rightarrow> global" where
  "run_leave s ctx event g =
     (case chart_leave s of
        None \<Rightarrow> g
      | Some leave \<Rightarrow> leave ctx event (observe (LeaveCalled s ctx event) g))"

text \<open>\<^verbatim>\<open>if (nextDef && nextDef.enter) nextDef.enter(currentState.context, event)\<close>\<close>

definition run_enter :: "TooltipStates \<Rightarrow> addr \<Rightarrow> MachineEvent \<Rightarrow> global \<Rightarrow> global" where
  "run_enter s ctx event g =
     (case chart_enter s of
        None \<Rightarrow> g
      | Some enter \<Rightarrow> enter ctx event (observe (EnterCalled s ctx event) g))"

text \<open>\<^verbatim>\<open>transition(currentState, event)\<close>. The merged context is built from the
  global \<^verbatim>\<open>state.context\<close>, read after the leave effect; both effects are passed
  \<^verbatim>\<open>currentState.context\<close>.\<close>

definition transition ::
  "StateObject \<Rightarrow> MachineEvent \<Rightarrow> global \<Rightarrow> (StateObject \<times> bool) \<times> global" where
  "transition currentState event g =
     (case chart_on (st_value currentState) (ev_type event) of
        None \<Rightarrow> ((currentState, False), g)
      | Some nextState \<Rightarrow>
          (let g1 = run_leave (st_value currentState) (st_context currentState) event g;
               (context, g2) =
                  new_context (merge_payload (heap g1 (st_context (state g1))) event) g1;
               g3 = run_enter nextState (st_context currentState) event g2
           in ((\<lparr>st_value = nextState, st_context = context\<rparr>, True), g3)))"

definition send :: "MachineEvent \<Rightarrow> global \<Rightarrow> global" where
  "send event g =
     (case transition (state g) event g of
        ((s, changed), g') \<Rightarrow>
          if changed then notify (observe (Committed s) (g'\<lparr>state := s\<rparr>)) else g')"

subsection \<open>The instance binding layer (useTooltip)\<close>

definition active_id :: "global \<Rightarrow> string option" where
  "active_id g = ctx_id (heap g (st_context (state g)))"

definition isTooltipVisible :: "string \<Rightarrow> bool \<Rightarrow> global \<Rightarrow> bool" where
  "isTooltipVisible i initial g =
     (active_id g = Some i \<and>
      (if initial then st_value (state g) = VISIBLE
       else st_value (state g) = VISIBLE \<or> st_value (state g) = LEAVINGVISIBLE))"

text \<open>The handlers of the instance whose id is \<open>i\<close>.\<close>

definition handleMouseEnter :: "string \<Rightarrow> global \<Rightarrow> global" where
  "handleMouseEnter i g = send \<lparr>ev_type = MOUSEENTER, ev_id = Some (Some i)\<rparr> g"

definition handleMouseMove :: "string \<Rightarrow> global \<Rightarrow> global" where
  "handleMouseMove i g = send \<lparr>ev_type = MOUSEMOVE, ev_id = Some (Some i)\<rparr> g"

definition handleMouseLeave :: "string \<Rightarrow> global \<Rightarrow> global" where
  "handleMouseLeave i g = send \<lparr>ev_type = MOUSELEAVE, ev_id = None\<rparr> g"

definition handleMouseDown :: "string \<Rightarrow> global \<Rightarrow> global" where
  "handleMouseDown i g =
     (if active_id g = Some i then send \<lparr>ev_type = MOUSEDOWN, ev_id = None\<rparr> g else g)"

definition handleFocus :: "string \<Rightarrow> global \<Rightarrow> global" where
  "handleFocus i g = send \<lparr>ev_type = FOCUS, ev_id = Some (Some i)\<rparr> g"

definition handleBlur :: "string \<Rightarrow> global \<Rightarrow> global" where
  "handleBlur i g =
     (if active_id g = Some i then send \<lparr>ev_type = BLUR, ev_id = None\<rparr> g else g)"

definition handleKeyDown :: "string \<Rightarrow> global \<Rightarrow> global" where
  "handleKeyDown key g =
     (if key = ''Enter'' \<or> key = '' ''
      then send \<lparr>ev_type = SELECTWITHKEYBOARD, ev_id = None\<rparr> g else g)"

text \<open>The document's \<^verbatim>\<open>keydown\<close> listener installed by useTooltip.\<close>

definition listener :: "string \<Rightarrow> global \<Rightarrow> global" where
  "listener key g =
     (if (key = ''Escape'' \<or> key = ''Esc'') \<and> st_value (state g) = VISIBLE
      then send \<lparr>ev_type = SELECTWITHKEYBOARD, ev_id = None\<rparr> g else g)"

text \<open>The document's \<^verbatim>\<open>mousemove\<close> listener of useDisabledTriggerOnSafari; the flag
  says whether the event's target lies inside a trigger that is marked visible.\<close>

definition safari_handleMouseMove :: "bool \<Rightarrow> global \<Rightarrow> global" where
  "safari_handleMouseMove inside_visible_trigger g =
     (if inside_visible_trigger then g
      else send \<lparr>ev_type = GLOBALMOUSEMOVE, ev_id = None\<rparr> g)"

subsection \<open>The environment: inputs, the clock, timers that fire\<close>

definition advance :: "nat \<Rightarrow> global \<Rightarrow> global" where
  "advance d g = g\<lparr>now := now g + d\<rparr>"

text \<open>A pending timeout fires once, and not before it is due: it leaves the list of
  pending timeouts and its callback sends its event.\<close>

definition fire :: "nat \<Rightarrow> global \<Rightarrow> global" where
  "fire h g =
     (case find (\<lambda>t. t_handle t = h) (timeouts g) of
        None \<Rightarrow> g
      | Some t \<Rightarrow>
          if t_due t \<le> now g
          then send (t_event t) (g\<lparr>timeouts := filter (\<lambda>t. t_handle t \<noteq> h) (timeouts g)\<rparr>)
          else g)"

datatype input =
  MouseEnter string | MouseMove string | MouseLeave string | MouseDown string
  | Focus string | Blur string | KeyDown string | DocKeyDown string
  | DocMouseMove bool | Mount nat | Unmount nat | Advance nat | Fire nat

fun step :: "input \<Rightarrow> global \<Rightarrow> global" where
  "step (MouseEnter i) g = handleMouseEnter i g"
| "step (MouseMove i) g = handleMouseMove i g"
| "step (MouseLeave i) g = handleMouseLeave i g"
| "step (MouseDown i) g = handleMouseDown i g"
| "step (Focus i) g = handleFocus i g"
| "step (Blur i) g = handleBlur i g"
| "step (KeyDown k) g = handleKeyDown k g"
| "step (DocKeyDown k) g = listener k g"
| "step (DocMouseMove b) g = safari_handleMouseMove b g"
| "step (Mount fn) g = subscribe fn g"
| "step (Unmount fn) g = unsubscribe fn g"
| "step (Advance d) g = advance d g"
| "step (Fire h) g = fire h g"

fun run :: "input list \<Rightarrow> global \<Rightarrow> global" where
  "run [] g = g"
| "run (i # inputs) g = run inputs (step i g)"

subsection \<open>Placement\<close>

text \<open>
  The rectangles' fields, the viewport's dimensions and the scroll offsets are numbers
  of one type \<open>'a\<close>; the placement uses its \<open>+\<close>, \<open>-\<close> and \<open><\<close> only. The
  dimensions come from \<^verbatim>\<open>getDocumentDimensions()\<close> of @react-lit/helper and the
  offsets from \<^verbatim>\<open>window\<close>: both are read from the environment \<open>w\<close>. A CSS
  length \<^verbatim>\<open>`${n}px`\<close> is \<open>Px n\<close>.
\<close>

record 'a DOMRect =
  r_top :: 'a
  r_left :: 'a
  r_right :: 'a
  r_bottom :: 'a
  r_width :: 'a
  r_height :: 'a

record 'a window_env =
  windowWidth :: 'a
  windowHeight :: 'a
  pageXOffset :: 'a
  pageYOffset :: 'a

datatype 'a css = Px 'a | Keyword string

type_synonym 'a CSSProperties = "(string \<times> 'a css) list"

text \<open>The object \<^verbatim>\<open>collisions\<close> of \<^verbatim>\<open>positionTooltip\<close>.\<close>

record Collisions =
  c_top :: bool
  c_right :: bool
  c_bottom :: bool
  c_left :: bool

definition collisions ::
  "'a::{numeral,minus,ord,zero} window_env \<Rightarrow> 'a DOMRect \<Rightarrow> 'a DOMRect \<Rightarrow> 'a
     \<Rightarrow> Collisions" where
  "collisions w triggerRect tooltipRect offset =
     \<lparr>c_top = r_top triggerRect - r_height tooltipRect < 0,
      c_right = windowWidth w < r_left triggerRect + r_width tooltipRect,
      c_bottom = windowHeight w < r_bottom triggerRect + r_height tooltipRect + offset,
      c_left = r_left triggerRect - r_width tooltipRect < 0\<rparr>"

text \<open>\<^verbatim>\<open>positionTooltip(triggerRect, tooltipRect, offset = 8)\<close>; an absent rectangle
  or offset is \<open>None\<close>.\<close>

definition positionTooltip ::
  "'a::{numeral,minus,ord,zero} window_env \<Rightarrow> 'a DOMRect option \<Rightarrow> 'a DOMRect option
     \<Rightarrow> 'a option \<Rightarrow> 'a CSSProperties" where
  "positionTooltip w triggerRect tooltipRect offset_arg =
     (let offset = (case offset_arg of None \<Rightarrow> 8 | Some v \<Rightarrow> v) in
      case triggerRect of
        None \<Rightarrow> []
      | Some tr \<Rightarrow>
          (case tooltipRect of
             None \<Rightarrow> []
           | Some tt \<Rightarrow>
               (let c = collisions w tr tt offset;
                    directionRight = (c_right c \<and> \<not> c_left c);
                    directionUp = (c_bottom c \<and> \<not> c_top c)
                in [(''left'',
                      if directionRight
                      then Px (r_right tr - r_width tt + pageXOffset w)
                      else Px (r_left tr + pageXOffset w)),
                    (''top'',
                      if directionUp
                      then Px (r_top tr - offset - r_height tt + pageYOffset w)
                      else Px (r_top tr + offset + r_height tr + pageYOffset w))])))"

text \<open>\<^verbatim>\<open>getStyles\<close>. The position function is the caller's (the \<^verbatim>\<open>position\<close> prop);
  it may throw, which is the result \<open>Inl\<close>.\<close>

definition getStyles ::
  "('a DOMRect option \<Rightarrow> 'a DOMRect option \<Rightarrow> string + 'a CSSProperties)
     \<Rightarrow> 'a DOMRect option \<Rightarrow> 'a DOMRect option \<Rightarrow> string + 'a CSSProperties" where
  "getStyles position triggerRect tooltipRect =
     (case tooltipRect of
        None \<Rightarrow> Inr [(''visibility'', Keyword ''hidden'')]
      | Some _ \<Rightarrow> position triggerRect tooltipRect)"

subsection \<open>Pending timeouts\<close>

text \<open>The pending timeouts whose callback sends Rest.\<close>

definition rest_pending :: "global \<Rightarrow> timeout list" where
  "rest_pending g = filter (\<lambda>t. ev_type (t_event t) = REST) (timeouts g)"

text \<open>
  Handles are unique and were all handed out by \<^verbatim>\<open>setTimeout\<close>; a pending timeout
  is the rest timer's, known to \<^verbatim>\<open>restTimeout\<close>, or the leaving timer's, known to
  \<^verbatim>\<open>leavingVisibleTimer\<close>.
\<close>

definition timers_ok :: "global \<Rightarrow> bool" where
  "timers_ok g =
     (distinct (map t_handle (timeouts g)) \<and>
      list_all
        (\<lambda>t. t_handle t < next_handle g \<and>
           (t_event t = \<lparr>ev_type = REST, ev_id = None\<rparr> \<and>
              restTimeout g = Some (t_handle t) \<or>
            t_event t = \<lparr>ev_type = TIMECOMPLETE, ev_id = None\<rparr> \<and>
              leavingVisibleTimer g = Some (t_handle t)))
        (timeouts g))"

text \<open>The inputs that are not the user's: the clock and the timers.\<close>

fun is_env :: "input \<Rightarrow> bool" where
  "is_env (Advance d) = True"
| "is_env (Fire h) = True"
| "is_env _ = False"

section \<open>Proofs\<close>

subsection \<open>Unfolding, and what a notification pass leaves alone\<close>

lemmas machine_defs = send_def transition_def run_leave_def run_enter_def new_context_def merge_payload_def
  observe_def clearContextId_def startRestTimer_def clearRestTimer_def
  startLeavingVisibleTimer_def clearLeavingVisibleTimer_def clearTimeout_def setTimeout_def
  active_id_def

lemmas handler_defs = handleMouseEnter_def handleMouseMove_def handleMouseLeave_def
  handleMouseDown_def handleFocus_def handleBlur_def handleKeyDown_def listener_def
  safari_handleMouseMove_def advance_def fire_def subscribe_def unsubscribe_def

lemmas eval_defs = machine_defs handler_defs init_def notify_def call_listener_def
  REST_TIMEOUT_def LEAVE_TIMEOUT_def wf_store_def isTooltipVisible_def

lemma run_op_frame:
  "heap (run_op x g) = heap g" "next_addr (run_op x g) = next_addr g"
  "state (run_op x g) = state g" "listener_body (run_op x g) = listener_body g"
  "restTimeout (run_op x g) = restTimeout g"
  "leavingVisibleTimer (run_op x g) = leavingVisibleTimer g"
  "now (run_op x g) = now g" "timeouts (run_op x g) = timeouts g"
  "next_handle (run_op x g) = next_handle g" "calls (run_op x g) = calls g"
  by (cases x; simp add: subscribe_def unsubscribe_def)+

lemma fold_run_op_frame:
  "heap (fold run_op xs g) = heap g" "next_addr (fold run_op xs g) = next_addr g"
  "state (fold run_op xs g) = state g" "listener_body (fold run_op xs g) = listener_body g"
  "restTimeout (fold run_op xs g) = restTimeout g"
  "leavingVisibleTimer (fold run_op xs g) = leavingVisibleTimer g"
  "now (fold run_op xs g) = now g" "timeouts (fold run_op xs g) = timeouts g"
  "next_handle (fold run_op xs g) = next_handle g" "calls (fold run_op xs g) = calls g"
  by (induction xs arbitrary: g; simp add: run_op_frame)+

lemma call_listener_frame:
  "heap (call_listener f g) = heap g" "next_addr (call_listener f g) = next_addr g"
  "state (call_listener f g) = state g" "listener_body (call_listener f g) = listener_body g"
  "restTimeout (call_listener f g) = restTimeout g"
  "leavingVisibleTimer (call_listener f g) = leavingVisibleTimer g"
  "now (call_listener f g) = now g" "timeouts (call_listener f g) = timeouts g"
  "next_handle (call_listener f g) = next_handle g"
  "calls (call_listener f g) = calls g @ [ListenerCalled f (state g)]"
  by (simp_all add: call_listener_def fold_run_op_frame observe_def)

lemma forEach_frame:
  "heap (forEach n k g) = heap g" "next_addr (forEach n k g) = next_addr g"
  "state (forEach n k g) = state g" "listener_body (forEach n k g) = listener_body g"
  "restTimeout (forEach n k g) = restTimeout g"
  "leavingVisibleTimer (forEach n k g) = leavingVisibleTimer g"
  "now (forEach n k g) = now g" "timeouts (forEach n k g) = timeouts g"
  "next_handle (forEach n k g) = next_handle g"
  by (induction n arbitrary: k g; simp add: call_listener_frame)+

lemma notify_frame:
  "heap (notify g) = heap g" "next_addr (notify g) = next_addr g"
  "state (notify g) = state g" "listener_body (notify g) = listener_body g"
  "restTimeout (notify g) = restTimeout g"
  "leavingVisibleTimer (notify g) = leavingVisibleTimer g"
  "now (notify g) = now g" "timeouts (notify g) = timeouts g"
  "next_handle (notify g) = next_handle g"
  by (simp_all add: notify_def forEach_frame)

subsection \<open>What the effects of a transition change\<close>

lemma run_leave_frame:
  "next_addr (run_leave m a e g) = next_addr g" "state (run_leave m a e g) = state g"
  "now (run_leave m a e g) = now g" "next_handle (run_leave m a e g) = next_handle g"
  "subscriptions (run_leave m a e g) = subscriptions g"
  "listener_body (run_leave m a e g) = listener_body g"
  "restTimeout (run_leave m a e g) = restTimeout g"
  "leavingVisibleTimer (run_leave m a e g) = leavingVisibleTimer g"
  by (cases m; simp add: machine_defs)+

lemma run_leave_calls:
  "calls (run_leave m a e g) =
     calls g @ (case chart_leave m of None \<Rightarrow> [] | Some _ \<Rightarrow> [LeaveCalled m a e])"
  by (cases m; simp add: machine_defs)

lemma run_leave_heap:
  "heap (run_leave m a e g) =
     (if m = LEAVINGVISIBLE \<or> m = DISMISSED
      then (heap g)(st_context (state g) := (heap g (st_context (state g)))\<lparr>ctx_id := None\<rparr>)
      else heap g)"
  by (cases m; simp add: machine_defs)

lemma run_leave_timeouts:
  "timeouts (run_leave m a e g) =
     (if m = FOCUSED then filter (\<lambda>t. Some (t_handle t) \<noteq> restTimeout g) (timeouts g)
      else if m = LEAVINGVISIBLE
      then filter (\<lambda>t. Some (t_handle t) \<noteq> leavingVisibleTimer g) (timeouts g)
      else timeouts g)"
  by (cases m; simp add: machine_defs)

lemma run_enter_frame:
  "next_addr (run_enter m a e g) = next_addr g" "state (run_enter m a e g) = state g"
  "now (run_enter m a e g) = now g"
  "subscriptions (run_enter m a e g) = subscriptions g"
  "listener_body (run_enter m a e g) = listener_body g"
  by (cases m; simp add: machine_defs Let_def)+

lemma run_enter_calls:
  "calls (run_enter m a e g) =
     calls g @ (case chart_enter m of None \<Rightarrow> [] | Some _ \<Rightarrow> [EnterCalled m a e])"
  by (cases m; simp add: machine_defs Let_def)

lemma run_enter_heap:
  "heap (run_enter m a e g) =
     (if m = IDLE
      then (heap g)(st_context (state g) := (heap g (st_context (state g)))\<lparr>ctx_id := None\<rparr>)
      else heap g)"
  by (cases m; simp add: machine_defs Let_def)

lemma new_context_frame:
  "fst (new_context c g) = next_addr g"
  "next_addr (snd (new_context c g)) = Suc (next_addr g)"
  "state (snd (new_context c g)) = state g"
  "heap (snd (new_context c g)) = (heap g)(next_addr g := c)"
  "calls (snd (new_context c g)) = calls g @ [ContextMerged (next_addr g) c]"
  "subscriptions (snd (new_context c g)) = subscriptions g"
  "listener_body (snd (new_context c g)) = listener_body g"
  "timeouts (snd (new_context c g)) = timeouts g"
  "now (snd (new_context c g)) = now g"
  "next_handle (snd (new_context c g)) = next_handle g"
  "restTimeout (snd (new_context c g)) = restTimeout g"
  "leavingVisibleTimer (snd (new_context c g)) = leavingVisibleTimer g"
  by (simp_all add: new_context_def observe_def)

text \<open>The global record after \<^verbatim>\<open>transition\<close> took a mapped event.\<close>

lemma transition_mapped:
  assumes "chart_on (st_value s) (ev_type e) = Some target"
  shows "transition s e g =
    ((\<lparr>st_value = target, st_context = next_addr g\<rparr>, True),
     run_enter target (st_context s) e
       (snd (new_context
          (merge_payload
             (heap (run_leave (st_value s) (st_context s) e g) (st_context (state g))) e)
          (run_leave (st_value s) (st_context s) e g))))"
  using assms
  by (simp add: transition_def Let_def run_leave_frame new_context_frame split: prod.split)
    (simp add: new_context_def run_leave_frame)

lemma send_mapped:
  assumes "chart_on (st_value (state g)) (ev_type e) = Some target"
  shows "send e g =
    notify (observe (Committed \<lparr>st_value = target, st_context = next_addr g\<rparr>)
      ((snd (transition (state g) e g))
         \<lparr>state := \<lparr>st_value = target, st_context = next_addr g\<rparr>\<rparr>))"
  using assms by (simp add: send_def transition_mapped)

lemma run_enter_timers:
  "timeouts (run_enter m a e g) =
     (if m = FOCUSED
      then filter (\<lambda>t. Some (t_handle t) \<noteq> restTimeout g) (timeouts g)
           @ [\<lparr>t_handle = next_handle g, t_due = now g + REST_TIMEOUT,
               t_event = \<lparr>ev_type = REST, ev_id = None\<rparr>\<rparr>]
      else if m = LEAVINGVISIBLE
      then filter (\<lambda>t. Some (t_handle t) \<noteq> leavingVisibleTimer g) (timeouts g)
           @ [\<lparr>t_handle = next_handle g, t_due = now g + LEAVE_TIMEOUT,
               t_event = \<lparr>ev_type = TIMECOMPLETE, ev_id = None\<rparr>\<rparr>]
      else timeouts g)"
  "restTimeout (run_enter m a e g) =
     (if m = FOCUSED then Some (next_handle g) else restTimeout g)"
  "leavingVisibleTimer (run_enter m a e g) =
     (if m = LEAVINGVISIBLE then Some (next_handle g) else leavingVisibleTimer g)"
  "next_handle (run_enter m a e g) =
     (if m = FOCUSED \<or> m = LEAVINGVISIBLE then Suc (next_handle g) else next_handle g)"
  by (cases m; simp add: machine_defs Let_def)+

subsection \<open>The calls of a notification pass\<close>

lemma forEach_calls:
  "\<exists>ls. calls (forEach n k g) = calls g @ map (\<lambda>f. ListenerCalled f (state g)) ls \<and>
        length ls \<le> n"
proof (induction n arbitrary: k g)
  case 0
  show ?case by simp
next
  case (Suc n)
  show ?case
  proof (cases "k < length (subscriptions g)")
    case True
    let ?f = "subscriptions g ! k"
    from Suc.IH [of "Suc k" "call_listener ?f g"] obtain ls where
      "calls (forEach n (Suc k) (call_listener ?f g)) =
         calls (call_listener ?f g) @
         map (\<lambda>f. ListenerCalled f (state (call_listener ?f g))) ls"
      and "length ls \<le> n" by blast
    with True have
      "calls (forEach (Suc n) k g) =
         calls g @ map (\<lambda>f. ListenerCalled f (state g)) (?f # ls) \<and>
       length (?f # ls) \<le> Suc n"
      by (simp add: call_listener_frame)
    then show ?thesis by blast
  next
    case False
    from Suc.IH [of "Suc k" g] obtain ls where
      "calls (forEach n (Suc k) g) = calls g @ map (\<lambda>f. ListenerCalled f (state g)) ls"
      and "length ls \<le> n" by blast
    with False have
      "calls (forEach (Suc n) k g) = calls g @ map (\<lambda>f. ListenerCalled f (state g)) ls \<and>
       length ls \<le> Suc n"
      by simp
    then show ?thesis by blast
  qed
qed

lemma notify_calls:
  "\<exists>ls. calls (notify g) = calls g @ map (\<lambda>f. ListenerCalled f (state g)) ls \<and>
        length ls \<le> length (subscriptions g)"
  unfolding notify_def by (rule forEach_calls)

subsection \<open>What send commits\<close>

lemma send_state:
  assumes "chart_on (st_value (state g)) (ev_type e) = Some target"
  shows "state (send e g) = \<lparr>st_value = target, st_context = next_addr g\<rparr>"
  using assms by (simp add: send_mapped notify_frame observe_def)

lemma send_heap:
  assumes "chart_on (st_value (state g)) (ev_type e) = Some target"
  shows "heap (send e g) =
           heap (run_enter target (st_context (state g)) e
             (snd (new_context
                (merge_payload
                   (heap (run_leave (st_value (state g)) (st_context (state g)) e g)
                      (st_context (state g))) e)
                (run_leave (st_value (state g)) (st_context (state g)) e g))))"
  using assms by (simp add: send_mapped notify_frame observe_def transition_mapped)

lemma send_new_context:
  assumes "chart_on (st_value (state g)) (ev_type e) = Some target" and "wf_store g"
  shows "heap (send e g) (next_addr g) =
           merge_payload
             (heap (run_leave (st_value (state g)) (st_context (state g)) e g)
                (st_context (state g))) e"
  using assms
  by (simp add: send_heap run_enter_heap run_enter_frame run_leave_frame new_context_frame
      wf_store_def)

lemma send_calls:
  assumes "chart_on (st_value (state g)) (ev_type e) = Some target"
  shows "\<exists>ls. calls (send e g) =
           calls (snd (transition (state g) e g))
           @ Committed (state (send e g))
           # map (\<lambda>f. ListenerCalled f (state (send e g))) ls \<and>
         length ls \<le> length (subscriptions g)"
proof -
  let ?com = "\<lparr>st_value = target, st_context = next_addr g\<rparr>"
  let ?gc = "observe (Committed ?com) ((snd (transition (state g) e g))\<lparr>state := ?com\<rparr>)"
  obtain ls where
    "calls (notify ?gc) = calls ?gc @ map (\<lambda>f. ListenerCalled f (state ?gc)) ls"
    and "length ls \<le> length (subscriptions ?gc)"
    using notify_calls [of ?gc] by blast
  moreover have "subscriptions ?gc = subscriptions g"
    using assms
    by (simp add: observe_def transition_mapped run_enter_frame run_leave_frame
        new_context_frame)
  moreover have "state ?gc = ?com" "calls ?gc = calls (snd (transition (state g) e g)) @ [Committed ?com]"
    by (simp_all add: observe_def)
  ultimately show ?thesis
    by (intro exI [of _ ls]) (simp add: send_mapped [OF assms] notify_frame)
qed

lemma transition_calls:
  assumes "chart_on (st_value (state g)) (ev_type e) = Some target"
  shows "calls (snd (transition (state g) e g)) =
     calls g
     @ (case chart_leave (st_value (state g)) of None \<Rightarrow> []
        | Some _ \<Rightarrow> [LeaveCalled (st_value (state g)) (st_context (state g)) e])
     @ [ContextMerged (next_addr g)
          (merge_payload
             (heap (run_leave (st_value (state g)) (st_context (state g)) e g)
                (st_context (state g))) e)]
     @ (case chart_enter target of None \<Rightarrow> []
        | Some _ \<Rightarrow> [EnterCalled target (st_context (state g)) e])"
  using assms
  by (simp add: transition_mapped run_enter_calls run_leave_calls new_context_frame
      run_leave_frame)

lemma send_timers:
  assumes "chart_on (st_value (state g)) (ev_type e) = Some target"
  shows "timeouts (send e g) =
      timeouts (run_enter target (st_context (state g)) e
        (run_leave (st_value (state g)) (st_context (state g)) e g))"
    and "restTimeout (send e g) =
      restTimeout (run_enter target (st_context (state g)) e
        (run_leave (st_value (state g)) (st_context (state g)) e g))"
    and "leavingVisibleTimer (send e g) =
      leavingVisibleTimer (run_enter target (st_context (state g)) e
        (run_leave (st_value (state g)) (st_context (state g)) e g))"
    and "next_handle (send e g) =
      next_handle (run_enter target (st_context (state g)) e
        (run_leave (st_value (state g)) (st_context (state g)) e g))"
  using assms
  by (simp_all add: send_mapped notify_frame observe_def transition_mapped
      run_enter_timers new_context_frame)

lemma send_heap_explicit:
  assumes "chart_on (st_value (state g)) (ev_type e) = Some target" and "wf_store g"
  shows "heap (send e g) =
    (heap g)
      (st_context (state g) :=
         (if target = IDLE \<or> st_value (state g) = LEAVINGVISIBLE \<or> st_value (state g) = DISMISSED
          then (heap g (st_context (state g)))\<lparr>ctx_id := None\<rparr>
          else heap g (st_context (state g))),
       next_addr g :=
         merge_payload
           (if st_value (state g) = LEAVINGVISIBLE \<or> st_value (state g) = DISMISSED
            then (heap g (st_context (state g)))\<lparr>ctx_id := None\<rparr>
            else heap g (st_context (state g))) e)"
proof -
  have neq: "next_addr g \<noteq> st_context (state g)"
    using assms(2) by (simp add: wf_store_def)
  show ?thesis
    using neq
    by (auto simp add: send_heap [OF assms(1)] run_enter_heap run_enter_frame
        run_leave_heap run_leave_frame new_context_frame fun_eq_iff)
qed

lemma fold_send_unmapped:
  assumes "list_all (\<lambda>e'. chart_on (st_value (state g)) (ev_type e') = None) es"
  shows "fold send es g = g"
  using assms by (induction es) (simp_all add: send_def transition_def)

lemma committed_frame:
  assumes "chart_on (st_value (state g)) (ev_type e) = Some target"
  shows "subscriptions (snd (transition (state g) e g)) = subscriptions g"
    and "listener_body (snd (transition (state g) e g)) = listener_body g"
  using assms
  by (simp_all add: transition_mapped run_enter_frame run_leave_frame new_context_frame)

subsection \<open>A notification pass whose listeners only add subscribers\<close>

lemma fold_run_op_adds:
  assumes "list_all adds_only ops"
  shows "\<exists>more. subscriptions (fold run_op ops g) = subscriptions g @ more"
  using assms
proof (induction ops arbitrary: g)
  case Nil
  show ?case by simp
next
  case (Cons x ops)
  from Cons.prems obtain fn where x: "x = Subscribe fn"
    by (cases x) simp_all
  from Cons.prems have "list_all adds_only ops" by simp
  from Cons.IH [OF this, of "subscribe fn g"] obtain more where
    "subscriptions (fold run_op ops (subscribe fn g)) = subscriptions (subscribe fn g) @ more"
    by blast
  then have "subscriptions (fold run_op (x # ops) g) = subscriptions g @ (fn # more)"
    by (simp add: x subscribe_def)
  then show ?case by blast
qed

lemma call_listener_adds:
  assumes "list_all adds_only (listener_body g f)"
  shows "\<exists>more. subscriptions (call_listener f g) = subscriptions g @ more"
  using fold_run_op_adds [OF assms, of "observe (ListenerCalled f (state g)) g"]
  by (simp add: call_listener_def observe_def)

text \<open>A pass over the subscriptions \<open>xs\<close> registered when it began, while the listeners
  among them only add subscribers: the array is \<open>xs\<close> followed by what was added.\<close>

lemma forEach_adds:
  assumes "list_all (\<lambda>f. list_all adds_only (listener_body g f)) xs"
      and "subscriptions g = xs @ added"
      and "k + n = length xs"
  shows "calls (forEach n k g) =
           calls g @ map (\<lambda>f. ListenerCalled f (state g)) (drop k xs) \<and>
         (\<exists>added'. subscriptions (forEach n k g) = xs @ added')"
  using assms
proof (induction n arbitrary: k g added)
  case 0
  then show ?case by simp
next
  case (Suc n)
  let ?f = "xs ! k"
  let ?g = "call_listener ?f g"
  from Suc.prems(3) have k: "k < length xs" by simp
  with Suc.prems(2) have at_k: "subscriptions g ! k = ?f" and in_range: "k < length (subscriptions g)"
    by (simp_all add: nth_append)
  from Suc.prems(1) k have "list_all adds_only (listener_body g ?f)"
    by (simp add: list_all_length)
  from call_listener_adds [OF this] obtain more where
    more: "subscriptions ?g = subscriptions g @ more" by blast
  have step: "forEach (Suc n) k g = forEach n (Suc k) ?g"
    using in_range at_k by simp
  have "list_all (\<lambda>f. list_all adds_only (listener_body ?g f)) xs"
    using Suc.prems(1) by (simp add: call_listener_frame)
  moreover have "subscriptions ?g = xs @ (added @ more)"
    using more Suc.prems(2) by simp
  moreover have "Suc k + n = length xs"
    using Suc.prems(3) by simp
  ultimately have IH:
    "calls (forEach n (Suc k) ?g) =
       calls ?g @ map (\<lambda>f. ListenerCalled f (state ?g)) (drop (Suc k) xs) \<and>
     (\<exists>added'. subscriptions (forEach n (Suc k) ?g) = xs @ added')"
    by (rule Suc.IH)
  moreover have "drop k xs = ?f # drop (Suc k) xs"
    using k by (simp add: Cons_nth_drop_Suc)
  ultimately show ?case
    unfolding step by (simp add: call_listener_frame)
qed

lemma notify_adds:
  assumes "list_all (\<lambda>f. list_all adds_only (listener_body g f)) (subscriptions g)"
  shows "calls (notify g) =
           calls g @ map (\<lambda>f. ListenerCalled f (state g)) (subscriptions g)"
  using forEach_adds [OF assms, of "[]" 0 "length (subscriptions g)"]
  by (simp add: notify_def)

text \<open>When the subscribed listeners only add subscribers during the pass, every
  subscriber registered at commit is called once, in registration order.\<close>

lemma send_notifies_all_without_removal:
  assumes "chart_on (st_value (state g)) (ev_type e) = Some target"
      and "list_all (\<lambda>f. list_all adds_only (listener_body g f)) (subscriptions g)"
  shows "calls (send e g) =
           calls (snd (transition (state g) e g))
           @ Committed (state (send e g))
           # map (\<lambda>f. ListenerCalled f (state (send e g))) (subscriptions g)"
proof -
  let ?com = "\<lparr>st_value = target, st_context = next_addr g\<rparr>"
  let ?gc = "observe (Committed ?com) ((snd (transition (state g) e g))\<lparr>state := ?com\<rparr>)"
  have subs: "subscriptions ?gc = subscriptions g"
    and bodies: "listener_body ?gc = listener_body g"
    by (simp_all add: observe_def committed_frame [OF assms(1)])
  with assms(2) have
    "list_all (\<lambda>f. list_all adds_only (listener_body ?gc f)) (subscriptions ?gc)"
    by simp
  from notify_adds [OF this] subs show ?thesis
    by (simp add: send_mapped [OF assms(1)] notify_frame) (simp add: observe_def)
qed

subsection \<open>Timers\<close>

lemma timers_ok_init: "timers_ok (init bodies)"
  by (simp add: timers_ok_def init_def)

lemma timers_ok_cong:
  assumes "timeouts g' = timeouts g" "next_handle g' = next_handle g"
    "restTimeout g' = restTimeout g" "leavingVisibleTimer g' = leavingVisibleTimer g"
  shows "timers_ok g' = timers_ok g"
  using assms by (simp add: timers_ok_def)

lemma timers_ok_filter:
  assumes "timers_ok g"
  shows "timers_ok (g\<lparr>timeouts := filter P (timeouts g)\<rparr>)"
  using assms by (auto simp add: timers_ok_def list_all_iff distinct_map_filter)

lemma timers_ok_clearTimeout: "timers_ok g \<Longrightarrow> timers_ok (clearTimeout h g)"
  unfolding clearTimeout_def by (rule timers_ok_filter)

lemma timers_ok_startRestTimer:
  assumes "timers_ok g"
  shows "timers_ok (startRestTimer g)"
  using assms
  by (auto simp add: timers_ok_def startRestTimer_def clearTimeout_def setTimeout_def
      list_all_iff distinct_map_filter Let_def)

lemma timers_ok_startLeavingVisibleTimer:
  assumes "timers_ok g"
  shows "timers_ok (startLeavingVisibleTimer g)"
  using assms
  by (auto simp add: timers_ok_def startLeavingVisibleTimer_def clearTimeout_def
      setTimeout_def list_all_iff distinct_map_filter Let_def)

lemma timers_ok_clearContextId: "timers_ok (clearContextId g) = timers_ok g"
  by (rule timers_ok_cong) (simp_all add: clearContextId_def)

lemma timers_ok_observe: "timers_ok (observe c g) = timers_ok g"
  by (rule timers_ok_cong) (simp_all add: observe_def)

lemma timers_ok_run_leave: "timers_ok g \<Longrightarrow> timers_ok (run_leave m a e g)"
  by (cases m)
    (simp_all add: run_leave_def timers_ok_observe timers_ok_clearContextId
      clearRestTimer_def clearLeavingVisibleTimer_def timers_ok_clearTimeout)

lemma timers_ok_run_enter: "timers_ok g \<Longrightarrow> timers_ok (run_enter m a e g)"
  by (cases m)
    (simp_all add: run_enter_def timers_ok_observe timers_ok_clearContextId
      timers_ok_startRestTimer timers_ok_startLeavingVisibleTimer)

lemma timers_ok_new_context: "timers_ok (snd (new_context c g)) = timers_ok g"
  by (rule timers_ok_cong) (simp_all add: new_context_frame)

lemma send_unmapped:
  "chart_on (st_value (state g)) (ev_type e) = None \<Longrightarrow> send e g = g"
  by (simp add: send_def transition_def)

lemma timers_ok_send:
  assumes "timers_ok g"
  shows "timers_ok (send e g)"
proof (cases "chart_on (st_value (state g)) (ev_type e)")
  case None
  with assms show ?thesis by (simp add: send_unmapped)
next
  case (Some target)
  let ?com = "\<lparr>st_value = target, st_context = next_addr g\<rparr>"
  let ?t = "snd (transition (state g) e g)"
  have "timers_ok ?t"
    using assms
    by (simp add: transition_mapped [OF Some] timers_ok_run_enter timers_ok_new_context
        timers_ok_run_leave)
  moreover have "timers_ok (send e g) = timers_ok ?t"
    by (rule timers_ok_cong) (simp_all add: send_mapped [OF Some] notify_frame observe_def)
  ultimately show ?thesis by simp
qed

lemma send_now: "now (send e g) = now g"
proof (cases "chart_on (st_value (state g)) (ev_type e)")
  case None
  then show ?thesis by (simp add: send_unmapped)
next
  case (Some target)
  then show ?thesis
    by (simp add: send_mapped [OF Some] notify_frame observe_def transition_mapped
        run_enter_frame run_leave_frame new_context_frame)
qed

lemma timers_ok_fire:
  assumes "timers_ok g"
  shows "timers_ok (fire h g)"
  using assms
  by (simp add: fire_def timers_ok_send timers_ok_filter split: option.split)

lemma timers_ok_step:
  assumes "timers_ok g"
  shows "timers_ok (step i g)"
proof (cases i)
  case (Mount f)
  have "timers_ok (subscribe f g) = timers_ok g"
    by (rule timers_ok_cong) (simp_all add: subscribe_def)
  with assms Mount show ?thesis by simp
next
  case (Unmount f)
  have "timers_ok (unsubscribe f g) = timers_ok g"
    by (rule timers_ok_cong) (simp_all add: unsubscribe_def)
  with assms Unmount show ?thesis by simp
next
  case (Advance d)
  have "timers_ok (advance d g) = timers_ok g"
    by (rule timers_ok_cong) (simp_all add: advance_def)
  with assms Advance show ?thesis by simp
next
  case (Fire h)
  with assms show ?thesis by (simp add: timers_ok_fire)
qed (simp_all add: assms timers_ok_send handleMouseEnter_def handleMouseMove_def
    handleMouseLeave_def handleMouseDown_def handleFocus_def handleBlur_def
    handleKeyDown_def listener_def safari_handleMouseMove_def)

lemma timers_ok_run: "timers_ok g \<Longrightarrow> timers_ok (run inputs g)"
  by (induction inputs arbitrary: g) (simp_all add: timers_ok_step)

lemma filter_at_most_one:
  assumes "distinct (map f xs)" and "list_all (\<lambda>x. P x \<longrightarrow> f x = c) xs"
  shows "length (filter P xs) \<le> 1"
  using assms
proof (induction xs)
  case Nil
  then show ?case by simp
next
  case (Cons x xs)
  show ?case
  proof (cases "P x")
    case False
    with Cons show ?thesis by simp
  next
    case True
    with Cons.prems have "f x = c" and "c \<notin> f ` set xs" by auto
    have "\<not> P y" if "y \<in> set xs" for y
    proof
      assume "P y"
      with Cons.prems(2) that have "f y = c" by (simp add: list_all_iff)
      with that \<open>c \<notin> f ` set xs\<close> show False by force
    qed
    then have "filter P xs = []"
      by (simp add: filter_empty_conv)
    with True show ?thesis by simp
  qed
qed

lemma rest_pending_at_most_one:
  assumes "timers_ok g"
  shows "length (rest_pending g) \<le> 1"
proof -
  have "list_all (\<lambda>t. ev_type (t_event t) = REST \<longrightarrow> Some (t_handle t) = restTimeout g)
          (timeouts g)"
    using assms by (auto simp add: timers_ok_def list_all_iff)
  moreover have "distinct (map (\<lambda>t. Some (t_handle t)) (timeouts g))"
    using assms by (simp add: timers_ok_def distinct_map inj_on_def)
  ultimately show ?thesis
    unfolding rest_pending_def by (intro filter_at_most_one) auto
qed

lemma run_enter_FOCUSED:
  "timeouts (run_enter FOCUSED a e g) =
     filter (\<lambda>t. Some (t_handle t) \<noteq> restTimeout g) (timeouts g)
     @ [\<lparr>t_handle = next_handle g, t_due = now g + REST_TIMEOUT,
         t_event = \<lparr>ev_type = REST, ev_id = None\<rparr>\<rparr>]"
  "restTimeout (run_enter FOCUSED a e g) = Some (next_handle g)"
  by (simp_all add: machine_defs Let_def)

lemma mouse_move_FOCUSED:
  assumes "st_value (state g) = FOCUSED"
  shows "st_value (state (handleMouseMove i g)) = FOCUSED"
    and "timeouts (handleMouseMove i g) =
           filter (\<lambda>t. Some (t_handle t) \<noteq> restTimeout g) (timeouts g)
           @ [\<lparr>t_handle = next_handle g, t_due = now g + REST_TIMEOUT,
               t_event = \<lparr>ev_type = REST, ev_id = None\<rparr>\<rparr>]"
    and "restTimeout (handleMouseMove i g) = Some (next_handle g)"
proof -
  let ?e = "\<lparr>ev_type = MOUSEMOVE, ev_id = Some (Some i)\<rparr>"
  have m: "chart_on (st_value (state g)) (ev_type ?e) = Some FOCUSED"
    using assms by simp
  show "st_value (state (handleMouseMove i g)) = FOCUSED"
    by (simp add: handleMouseMove_def send_state [OF m])
  show "timeouts (handleMouseMove i g) =
           filter (\<lambda>t. Some (t_handle t) \<noteq> restTimeout g) (timeouts g)
           @ [\<lparr>t_handle = next_handle g, t_due = now g + REST_TIMEOUT,
               t_event = \<lparr>ev_type = REST, ev_id = None\<rparr>\<rparr>]"
    using assms
    by (simp add: handleMouseMove_def send_mapped [OF m] notify_frame observe_def
        transition_mapped [OF m] run_enter_FOCUSED new_context_frame run_leave_frame
        run_leave_timeouts)
  show "restTimeout (handleMouseMove i g) = Some (next_handle g)"
    by (simp add: handleMouseMove_def send_mapped [OF m] notify_frame observe_def
        transition_mapped [OF m] run_enter_FOCUSED new_context_frame run_leave_frame)
qed

lemma mouse_moves_FOCUSED:
  "st_value (state g) = FOCUSED \<Longrightarrow> st_value (state (run (map MouseMove ids) g)) = FOCUSED"
  by (induction ids arbitrary: g) (simp_all add: mouse_move_FOCUSED(1))

lemma rest_cleared:
  assumes "timers_ok g"
  shows "filter (\<lambda>t. ev_type (t_event t) = REST)
           (filter (\<lambda>t. Some (t_handle t) \<noteq> restTimeout g) (timeouts g)) = []"
  using assms by (auto simp add: timers_ok_def list_all_iff filter_empty_conv)

text \<open>Before time \<open>T\<close> the mode is Focused and no rest timer is due earlier than \<open>T\<close>:
  the clock and the timers keep it so.\<close>

lemma env_step_keeps_FOCUSED:
  assumes "is_env i" and "timers_ok g"
    and "now g < T \<longrightarrow> st_value (state g) = FOCUSED \<and>
           list_all (\<lambda>t. ev_type (t_event t) = REST \<longrightarrow> T \<le> t_due t) (timeouts g)"
  shows "now (step i g) < T \<longrightarrow> st_value (state (step i g)) = FOCUSED \<and>
           list_all (\<lambda>t. ev_type (t_event t) = REST \<longrightarrow> T \<le> t_due t) (timeouts (step i g))"
proof (cases i)
  case (Advance d)
  with assms(3) show ?thesis by (simp add: advance_def)
next
  case (Fire h)
  show ?thesis
  proof (cases "find (\<lambda>t. t_handle t = h) (timeouts g)")
    case None
    with Fire assms(3) show ?thesis by (simp add: fire_def)
  next
    case (Some t)
    then have t_in: "t \<in> set (timeouts g)"
      by (auto simp add: find_Some_iff)
    let ?g1 = "g\<lparr>timeouts := filter (\<lambda>t. t_handle t \<noteq> h) (timeouts g)\<rparr>"
    show ?thesis
    proof (cases "t_due t \<le> now g")
      case False
      with Fire Some assms(3) show ?thesis by (simp add: fire_def)
    next
      case True
      then have fired: "step i g = send (t_event t) ?g1"
        using Fire Some by (simp add: fire_def)
      show ?thesis
      proof (intro impI)
        assume "now (step i g) < T"
        then have before: "now g < T"
          by (simp add: fired send_now)
        with assms(3) have focused: "st_value (state g) = FOCUSED"
          and due: "list_all (\<lambda>t. ev_type (t_event t) = REST \<longrightarrow> T \<le> t_due t) (timeouts g)"
          by simp_all
        from due t_in True before have "ev_type (t_event t) \<noteq> REST"
          by (auto simp add: list_all_iff)
        with assms(2) t_in have "ev_type (t_event t) = TIMECOMPLETE"
          by (auto simp add: timers_ok_def list_all_iff)
        with focused have "send (t_event t) ?g1 = ?g1"
          by (intro send_unmapped) simp
        with focused due show "st_value (state (step i g)) = FOCUSED \<and>
            list_all (\<lambda>t. ev_type (t_event t) = REST \<longrightarrow> T \<le> t_due t)
              (timeouts (step i g))"
          by (simp add: fired list_all_iff)
      qed
    qed
  qed
qed (use assms(1) in simp_all)

lemma env_step_now: "is_env i \<Longrightarrow> now g \<le> now (step i g)"
  by (cases i) (simp_all add: advance_def fire_def send_now split: option.split)

lemma env_run_keeps_FOCUSED:
  assumes "list_all is_env es" and "timers_ok g"
    and "now g < T \<longrightarrow> st_value (state g) = FOCUSED \<and>
           list_all (\<lambda>t. ev_type (t_event t) = REST \<longrightarrow> T \<le> t_due t) (timeouts g)"
  shows "now (run es g) < T \<longrightarrow> st_value (state (run es g)) = FOCUSED"
  using assms
proof (induction es arbitrary: g)
  case Nil
  then show ?case by simp
next
  case (Cons i es)
  from Cons.prems have "is_env i" and "list_all is_env es" by simp_all
  moreover have "timers_ok (step i g)"
    using Cons.prems(2) by (rule timers_ok_step)
  moreover have "now (step i g) < T \<longrightarrow> st_value (state (step i g)) = FOCUSED \<and>
      list_all (\<lambda>t. ev_type (t_event t) = REST \<longrightarrow> T \<le> t_due t) (timeouts (step i g))"
    using \<open>is_env i\<close> Cons.prems(2,3) by (rule env_step_keeps_FOCUSED)
  ultimately have "now (run es (step i g)) < T \<longrightarrow> st_value (state (run es (step i g))) = FOCUSED"
    by (intro Cons.IH)
  then show ?case by simp
qed

subsection \<open>The store\<close>

lemma wf_store_send:
  assumes "wf_store g"
  shows "wf_store (send e g)"
proof (cases "chart_on (st_value (state g)) (ev_type e)")
  case None
  with assms show ?thesis by (simp add: send_unmapped)
next
  case (Some target)
  then show ?thesis
    by (simp add: wf_store_def send_mapped [OF Some] notify_frame observe_def
        transition_mapped run_enter_frame run_leave_frame new_context_frame)
qed

lemma wf_store_step:
  assumes "wf_store g"
  shows "wf_store (step i g)"
proof (cases i)
  case (Fire h)
  have "wf_store (g\<lparr>timeouts := ts\<rparr>)" for ts
    using assms by (simp add: wf_store_def)
  with Fire assms show ?thesis
    by (simp add: fire_def wf_store_send split: option.split)
qed (use assms in \<open>simp_all add: wf_store_send handleMouseEnter_def handleMouseMove_def
    handleMouseLeave_def handleMouseDown_def handleFocus_def handleBlur_def
    handleKeyDown_def listener_def safari_handleMouseMove_def\<close>,
    simp_all add: wf_store_def subscribe_def unsubscribe_def advance_def)

text \<open>Every state the module reaches references an allocated context object.\<close>

lemma wf_store_run: "wf_store (run inputs (init bodies))"
proof -
  have "wf_store g \<Longrightarrow> wf_store (run inputs g)" for g
    by (induction inputs arbitrary: g) (simp_all add: wf_store_step)
  moreover have "wf_store (init bodies)"
    by (simp add: wf_store_def init_def)
  ultimately show ?thesis .
qed

subsection \<open>The state machine core\<close>

text \<open>
  C1. The claim: the active id is null whenever the mode is Idle, because Idle's enter
  effect clears it. The code at the input MouseEnter(a), MouseLeave: the transition
  Focused to Idle copies the context \<open>{id: a}\<close> into a new object (address 2) first, and
  Idle's enter effect \<^verbatim>\<open>clearContextId\<close> then writes \<^verbatim>\<open>null\<close> into the object that
  the global \<^verbatim>\<open>state\<close> still references (address 1). The committed state is Idle with
  the active id \<open>a\<close>.
\<close>

theorem C1_idle_keeps_activeId:
  "let g = run [MouseEnter ''a'', MouseLeave ''a''] (init (\<lambda>_. [])) in
     st_value (state g) = IDLE \<and> active_id g = Some ''a'' \<and>
     EnterCalled IDLE 1 \<lparr>ev_type = MOUSELEAVE, ev_id = None\<rparr> \<in> set (calls g) \<and>
     st_context (state g) = 2 \<and> heap g 1 = \<lparr>ctx_id = None\<rparr>"
  by (simp add: eval_defs Let_def)

text \<open>
  C2. For a mapped event, \<^verbatim>\<open>send\<close> works in this order. First the leave effect of
  the current mode, called with the context object of the state before the transition
  and the event: leaving Focused cancels the rest timer, leaving LeavingVisible cancels
  the leaving timer, and leaving LeavingVisible or Dismissed clears the id of the
  previous context object. Then the payload is merged into a new context object, built
  from the previous one as the leave effect left it. Then the enter effect of the target
  mode, called with the previous context object (not the new one) and the event:
  entering Idle clears the id of the previous object and leaves the new one alone,
  entering Focused or LeavingVisible cancels and arms its timer on the timeouts as the
  leave effect left them. Only then target and new context are committed as the global
  state, and the listeners are notified with it. The log of calls shows the same order.
\<close>

theorem C2_send_order:
  assumes "chart_on (st_value (state g)) (ev_type e) = Some target" and "wf_store g"
  shows
    "let previous = st_context (state g); mode = st_value (state g);
         cleared = (heap g previous)\<lparr>ctx_id := None\<rparr>;
         left_context =
           (if mode = LEAVINGVISIBLE \<or> mode = DISMISSED then cleared else heap g previous);
         left_timeouts =
           (if mode = FOCUSED
            then filter (\<lambda>t. Some (t_handle t) \<noteq> restTimeout g) (timeouts g)
            else if mode = LEAVINGVISIBLE
            then filter (\<lambda>t. Some (t_handle t) \<noteq> leavingVisibleTimer g) (timeouts g)
            else timeouts g);
         merged = merge_payload left_context e;
         committed = \<lparr>st_value = target, st_context = next_addr g\<rparr>
     in state (send e g) = committed \<and>
        next_addr g \<noteq> previous \<and>
        heap (send e g) =
          (heap g)(previous := (if target = IDLE then cleared else left_context),
                   next_addr g := merged) \<and>
        timeouts (send e g) =
          (if target = FOCUSED
           then filter (\<lambda>t. Some (t_handle t) \<noteq> restTimeout g) left_timeouts
                @ [\<lparr>t_handle = next_handle g, t_due = now g + REST_TIMEOUT,
                    t_event = \<lparr>ev_type = REST, ev_id = None\<rparr>\<rparr>]
           else if target = LEAVINGVISIBLE
           then filter (\<lambda>t. Some (t_handle t) \<noteq> leavingVisibleTimer g) left_timeouts
                @ [\<lparr>t_handle = next_handle g, t_due = now g + LEAVE_TIMEOUT,
                    t_event = \<lparr>ev_type = TIMECOMPLETE, ev_id = None\<rparr>\<rparr>]
           else left_timeouts) \<and>
        restTimeout (send e g) =
          (if target = FOCUSED then Some (next_handle g) else restTimeout g) \<and>
        leavingVisibleTimer (send e g) =
          (if target = LEAVINGVISIBLE then Some (next_handle g) else leavingVisibleTimer g) \<and>
        next_handle (send e g) =
          (if target = FOCUSED \<or> target = LEAVINGVISIBLE then Suc (next_handle g)
           else next_handle g) \<and>
        (\<exists>ls. calls (send e g) =
           calls g
           @ (case chart_leave mode of None \<Rightarrow> [] | Some _ \<Rightarrow> [LeaveCalled mode previous e])
           @ [ContextMerged (next_addr g) merged]
           @ (case chart_enter target of None \<Rightarrow> []
              | Some _ \<Rightarrow> [EnterCalled target previous e])
           @ [Committed committed]
           @ map (\<lambda>f. ListenerCalled f committed) ls)"
proof -
  have neq: "next_addr g \<noteq> st_context (state g)"
    using assms(2) by (simp add: wf_store_def)
  obtain ls where ls:
    "calls (send e g) =
       calls (snd (transition (state g) e g))
       @ Committed (state (send e g))
       # map (\<lambda>f. ListenerCalled f (state (send e g))) ls"
    using send_calls [OF assms(1)] by blast
  have heap': "heap (send e g) =
      (heap g)
        (st_context (state g) :=
           (if target = IDLE then (heap g (st_context (state g)))\<lparr>ctx_id := None\<rparr>
            else if st_value (state g) = LEAVINGVISIBLE \<or> st_value (state g) = DISMISSED
            then (heap g (st_context (state g)))\<lparr>ctx_id := None\<rparr>
            else heap g (st_context (state g))),
         next_addr g :=
           merge_payload
             (if st_value (state g) = LEAVINGVISIBLE \<or> st_value (state g) = DISMISSED
              then (heap g (st_context (state g)))\<lparr>ctx_id := None\<rparr>
              else heap g (st_context (state g))) e)"
    by (simp add: send_heap_explicit [OF assms])
  have timeouts': "timeouts (send e g) =
      (if target = FOCUSED
       then filter (\<lambda>t. Some (t_handle t) \<noteq> restTimeout g)
              (timeouts (run_leave (st_value (state g)) (st_context (state g)) e g))
            @ [\<lparr>t_handle = next_handle g, t_due = now g + REST_TIMEOUT,
                t_event = \<lparr>ev_type = REST, ev_id = None\<rparr>\<rparr>]
       else if target = LEAVINGVISIBLE
       then filter (\<lambda>t. Some (t_handle t) \<noteq> leavingVisibleTimer g)
              (timeouts (run_leave (st_value (state g)) (st_context (state g)) e g))
            @ [\<lparr>t_handle = next_handle g, t_due = now g + LEAVE_TIMEOUT,
                t_event = \<lparr>ev_type = TIMECOMPLETE, ev_id = None\<rparr>\<rparr>]
       else timeouts (run_leave (st_value (state g)) (st_context (state g)) e g))"
    by (simp add: send_timers(1) [OF assms(1)] run_enter_timers run_leave_frame)
  have handles: "restTimeout (send e g) =
        (if target = FOCUSED then Some (next_handle g) else restTimeout g)"
      "leavingVisibleTimer (send e g) =
        (if target = LEAVINGVISIBLE then Some (next_handle g) else leavingVisibleTimer g)"
      "next_handle (send e g) =
        (if target = FOCUSED \<or> target = LEAVINGVISIBLE then Suc (next_handle g)
         else next_handle g)"
    by (simp_all add: send_timers [OF assms(1)] run_enter_timers run_leave_frame)
  have merged: "merge_payload
        (heap (run_leave (st_value (state g)) (st_context (state g)) e g)
           (st_context (state g))) e =
      merge_payload
        (if st_value (state g) = LEAVINGVISIBLE \<or> st_value (state g) = DISMISSED
         then (heap g (st_context (state g)))\<lparr>ctx_id := None\<rparr>
         else heap g (st_context (state g))) e"
    by (simp add: run_leave_heap)
  show ?thesis
    unfolding Let_def
    apply (intro conjI exI [of _ ls])
           apply (simp add: send_state [OF assms(1)])
          apply (rule neq)
         apply (rule heap')
        apply (simp only: timeouts' run_leave_timeouts)
       apply (rule handles(1))
      apply (rule handles(2))
     apply (rule handles(3))
    apply (simp add: ls send_state [OF assms(1)] transition_calls [OF assms(1)] merged)
    done
qed

theorem C2_send_order_witness:
  "let g = run [Mount 5, MouseEnter ''a''] (init (\<lambda>_. []));
       leave = \<lparr>ev_type = MOUSELEAVE, ev_id = None\<rparr>;
       move = \<lparr>ev_type = MOUSEMOVE, ev_id = Some (Some ''b'')\<rparr>;
       rest = \<lparr>ev_type = REST, ev_id = None\<rparr> in
     wf_store g \<and> state g = \<lparr>st_value = FOCUSED, st_context = 1\<rparr> \<and>
     timeouts g = [\<lparr>t_handle = 1, t_due = 100, t_event = rest\<rparr>] \<and>
     chart_on (st_value (state g)) (ev_type leave) = Some IDLE \<and>
     state (send leave g) = \<lparr>st_value = IDLE, st_context = 2\<rparr> \<and>
     heap (send leave g) 1 = \<lparr>ctx_id = None\<rparr> \<and>
     heap (send leave g) 2 = \<lparr>ctx_id = Some ''a''\<rparr> \<and>
     timeouts (send leave g) = [] \<and>
     calls (send leave g) = calls g @
       [LeaveCalled FOCUSED 1 leave, ContextMerged 2 \<lparr>ctx_id = Some ''a''\<rparr>,
        EnterCalled IDLE 1 leave, Committed \<lparr>st_value = IDLE, st_context = 2\<rparr>,
        ListenerCalled 5 \<lparr>st_value = IDLE, st_context = 2\<rparr>] \<and>
     chart_on (st_value (state g)) (ev_type move) = Some FOCUSED \<and>
     state (send move g) = \<lparr>st_value = FOCUSED, st_context = 2\<rparr> \<and>
     heap (send move g) 1 = \<lparr>ctx_id = Some ''a''\<rparr> \<and>
     heap (send move g) 2 = \<lparr>ctx_id = Some ''b''\<rparr> \<and>
     timeouts (send move g) = [\<lparr>t_handle = 2, t_due = 100, t_event = rest\<rparr>] \<and>
     restTimeout (send move g) = Some 2 \<and> next_handle (send move g) = 3"
  using C2_send_order [of "run [Mount 5, MouseEnter ''a''] (init (\<lambda>_. []))"
      "\<lparr>ev_type = MOUSELEAVE, ev_id = None\<rparr>" IDLE]
    C2_send_order [of "run [Mount 5, MouseEnter ''a''] (init (\<lambda>_. []))"
      "\<lparr>ev_type = MOUSEMOVE, ev_id = Some (Some ''b'')\<rparr>" FOCUSED]
  by (simp add: eval_defs Let_def)

text \<open>
  C10. After a mapped transition on an event without an id, the active id is the one
  before the transition, unless the mode left is LeavingVisible or Dismissed, whose leave
  effects clear it. In particular, MouseLeave, Blur and GlobalMouseMove in Visible lead
  to LeavingVisible with the same active id, so the active instance's tooltip is still
  visible, and it stays so under every event that LeavingVisible has no transition for.
\<close>

theorem C10_no_id_payload:
  assumes "chart_on (st_value (state g)) (ev_type e) = Some target"
      and "ev_id e = None" and "wf_store g"
  shows "active_id (send e g) =
          (if st_value (state g) = LEAVINGVISIBLE \<or> st_value (state g) = DISMISSED
           then None else active_id g) \<and>
         (st_value (state g) = VISIBLE \<and> active_id g = Some i \<and>
          (ev_type e = MOUSELEAVE \<or> ev_type e = BLUR \<or> ev_type e = GLOBALMOUSEMOVE) \<longrightarrow>
            st_value (state (send e g)) = LEAVINGVISIBLE \<and>
            active_id (send e g) = Some i \<and>
            isTooltipVisible i False (send e g) \<and>
            (\<forall>es. list_all (\<lambda>e'. chart_on LEAVINGVISIBLE (ev_type e') = None) es \<longrightarrow>
               isTooltipVisible i False (fold send es (send e g))))"
proof -
  have active: "active_id (send e g) =
          (if st_value (state g) = LEAVINGVISIBLE \<or> st_value (state g) = DISMISSED
           then None else active_id g)"
    using assms
    by (simp add: active_id_def send_state [OF assms(1)] send_new_context [OF assms(1,3)]
        run_leave_heap merge_payload_def)
  have target: "target = LEAVINGVISIBLE"
    if "st_value (state g) = VISIBLE"
      and "ev_type e = MOUSELEAVE \<or> ev_type e = BLUR \<or> ev_type e = GLOBALMOUSEMOVE"
    using assms(1) that by auto
  show ?thesis
  proof (intro conjI impI allI)
    show "active_id (send e g) =
          (if st_value (state g) = LEAVINGVISIBLE \<or> st_value (state g) = DISMISSED
           then None else active_id g)"
      by (rule active)
  next
    assume v: "st_value (state g) = VISIBLE \<and> active_id g = Some i \<and>
      (ev_type e = MOUSELEAVE \<or> ev_type e = BLUR \<or> ev_type e = GLOBALMOUSEMOVE)"
    then show mode: "st_value (state (send e g)) = LEAVINGVISIBLE"
      using target by (simp add: send_state [OF assms(1)])
    from v show act: "active_id (send e g) = Some i"
      using active by simp
    from mode act show vis: "isTooltipVisible i False (send e g)"
      by (simp add: isTooltipVisible_def)
    fix es :: "MachineEvent list"
    assume "list_all (\<lambda>e'. chart_on LEAVINGVISIBLE (ev_type e') = None) es"
    with mode have "fold send es (send e g) = send e g"
      by (intro fold_send_unmapped) simp
    with vis show "isTooltipVisible i False (fold send es (send e g))"
      by simp
  qed
qed

theorem C10_no_id_payload_witness:
  "let g = run [Focus ''a''] (init (\<lambda>_. []));
       e = \<lparr>ev_type = GLOBALMOUSEMOVE, ev_id = None\<rparr>;
       es = [\<lparr>ev_type = MOUSEMOVE, ev_id = Some (Some ''b'')\<rparr>, \<lparr>ev_type = BLUR, ev_id = None\<rparr>] in
     chart_on (st_value (state g)) (ev_type e) = Some LEAVINGVISIBLE \<and> ev_id e = None \<and>
     wf_store g \<and> st_value (state g) = VISIBLE \<and> active_id g = Some ''a'' \<and>
     st_value (state (send e g)) = LEAVINGVISIBLE \<and>
     active_id (send e g) = Some ''a'' \<and>
     isTooltipVisible ''a'' False (send e g) \<and>
     list_all (\<lambda>e'. chart_on LEAVINGVISIBLE (ev_type e') = None) es \<and>
     isTooltipVisible ''a'' False (fold send es (send e g))"
  using C10_no_id_payload [of "run [Focus ''a''] (init (\<lambda>_. []))"
      "\<lparr>ev_type = GLOBALMOUSEMOVE, ev_id = None\<rparr>" LEAVINGVISIBLE "''a''"]
  by (simp add: eval_defs Let_def)

text \<open>
  C3. In LeavingVisible, with any active id, MouseEnter or Focus carrying the id \<open>b\<close>
  leads to Visible with the active id \<open>b\<close>: the tooltip of \<open>b\<close> is visible at once. The
  leaving timer is cancelled and no timer is armed (the handle counter stands still).
\<close>

theorem C3_rescue:
  assumes "st_value (state g) = LEAVINGVISIBLE"
      and "ev_type e = MOUSEENTER \<or> ev_type e = FOCUS"
      and "ev_id e = Some (Some b)"
  shows "st_value (state (send e g)) = VISIBLE \<and>
         active_id (send e g) = Some b \<and>
         isTooltipVisible b False (send e g) \<and>
         timeouts (send e g) =
           filter (\<lambda>t. Some (t_handle t) \<noteq> leavingVisibleTimer g) (timeouts g) \<and>
         next_handle (send e g) = next_handle g"
  using assms
  by (auto simp add: machine_defs notify_frame isTooltipVisible_def)

theorem C3_rescue_witness:
  "let g = run [Focus ''a'', Blur ''a''] (init (\<lambda>_. []));
       e = \<lparr>ev_type = MOUSEENTER, ev_id = Some (Some ''b'')\<rparr> in
     st_value (state g) = LEAVINGVISIBLE \<and> active_id g = Some ''a'' \<and>
     timeouts g = [\<lparr>t_handle = 1, t_due = 500, t_event = \<lparr>ev_type = TIMECOMPLETE, ev_id = None\<rparr>\<rparr>] \<and>
     st_value (state (send e g)) = VISIBLE \<and> active_id (send e g) = Some ''b'' \<and>
     isTooltipVisible ''b'' False (send e g) \<and> timeouts (send e g) = [] \<and>
     next_handle (send e g) = next_handle g"
  using C3_rescue [of "run [Focus ''a'', Blur ''a''] (init (\<lambda>_. []))"
      "\<lparr>ev_type = MOUSEENTER, ev_id = Some (Some ''b'')\<rparr>" "''b''"]
  by (simp add: eval_defs Let_def)

text \<open>
  C4. An event whose type has no entry in the current mode's row changes nothing:
  the whole global record is the same, so no effect ran, nothing was logged as called
  and no listener was notified.
\<close>

theorem C4_unmapped_noop:
  "chart_on (st_value (state g)) (ev_type e) = None \<Longrightarrow> send e g = g"
  by (simp add: send_def transition_def)

theorem C4_unmapped_noop_witness:
  "let g = run [Mount 7, Focus ''a''] (init (\<lambda>_. [])); e = \<lparr>ev_type = MOUSEMOVE, ev_id = Some (Some ''b'')\<rparr> in
     chart_on (st_value (state g)) (ev_type e) = None \<and> send e g = g"
  using C4_unmapped_noop [of "run [Mount 7, Focus ''a''] (init (\<lambda>_. []))"
      "\<lparr>ev_type = MOUSEMOVE, ev_id = Some (Some ''b'')\<rparr>"]
  by (simp add: eval_defs Let_def)

subsection \<open>The rest timer\<close>

text \<open>
  C6. In every state reached from the initial one by any inputs, at most one timeout
  that sends Rest is pending. If the mode is Focused, then after MouseMove on any
  instance the mode is Focused (and so after any sequence of MouseMoves); the timeout
  that \<^verbatim>\<open>restTimeout\<close> named is no longer pending, and the only pending timeout
  that sends Rest is a fresh one, due a full rest delay after the MouseMove. From there,
  whatever the clock and the timers do, the mode is still Focused (so not Visible) at
  every moment before that rest delay has passed.
\<close>

theorem C6_mouse_move_restarts_rest_timer:
  "let g = run inputs (init bodies);
       g' = handleMouseMove i g;
       fresh = \<lparr>t_handle = next_handle g, t_due = now g + REST_TIMEOUT,
                t_event = \<lparr>ev_type = REST, ev_id = None\<rparr>\<rparr>
   in length (rest_pending g) \<le> 1 \<and>
      (st_value (state g) = FOCUSED \<longrightarrow>
         st_value (state g') = FOCUSED \<and>
         (\<forall>ids. st_value (state (run (map MouseMove ids) g)) = FOCUSED) \<and>
         timeouts g' =
           filter (\<lambda>t. Some (t_handle t) \<noteq> restTimeout g) (timeouts g) @ [fresh] \<and>
         restTimeout g' = Some (next_handle g) \<and>
         rest_pending g' = [fresh] \<and>
         (\<forall>es. list_all is_env es \<and> now (run es g') < now g + REST_TIMEOUT \<longrightarrow>
            st_value (state (run es g')) = FOCUSED))"
proof -
  define g where "g = run inputs (init bodies)"
  define g' where "g' = handleMouseMove i g"
  define fresh where "fresh = \<lparr>t_handle = next_handle g, t_due = now g + REST_TIMEOUT,
    t_event = \<lparr>ev_type = REST, ev_id = None\<rparr>\<rparr>"
  have ok: "timers_ok g"
    unfolding g_def by (intro timers_ok_run timers_ok_init)
  then have one: "length (rest_pending g) \<le> 1"
    by (rule rest_pending_at_most_one)
  have focused_part:
    "st_value (state g') = FOCUSED \<and>
     (\<forall>ids. st_value (state (run (map MouseMove ids) g)) = FOCUSED) \<and>
     timeouts g' =
       filter (\<lambda>t. Some (t_handle t) \<noteq> restTimeout g) (timeouts g) @ [fresh] \<and>
     restTimeout g' = Some (next_handle g) \<and>
     rest_pending g' = [fresh] \<and>
     (\<forall>es. list_all is_env es \<and> now (run es g') < now g + REST_TIMEOUT \<longrightarrow>
        st_value (state (run es g')) = FOCUSED)"
    if focused: "st_value (state g) = FOCUSED"
  proof -
    have mode': "st_value (state g') = FOCUSED"
      unfolding g'_def using focused by (rule mouse_move_FOCUSED(1))
    have timeouts': "timeouts g' =
        filter (\<lambda>t. Some (t_handle t) \<noteq> restTimeout g) (timeouts g) @ [fresh]"
      unfolding g'_def fresh_def using focused by (rule mouse_move_FOCUSED(2))
    have handle': "restTimeout g' = Some (next_handle g)"
      unfolding g'_def using focused by (rule mouse_move_FOCUSED(3))
    have pending': "rest_pending g' = [fresh]"
      using rest_cleared [OF ok]
      by (simp add: rest_pending_def timeouts') (simp add: fresh_def)
    have ok': "timers_ok g'"
      unfolding g'_def handleMouseMove_def using ok by (rule timers_ok_send)
    have due': "list_all (\<lambda>t. ev_type (t_event t) = REST \<longrightarrow> now g + REST_TIMEOUT \<le> t_due t)
        (timeouts g')"
    proof -
      have "\<forall>t \<in> set (rest_pending g'). now g + REST_TIMEOUT \<le> t_due t"
        by (simp add: pending' fresh_def)
      then show ?thesis
        by (simp add: rest_pending_def list_all_iff)
    qed
    have later: "st_value (state (run es g')) = FOCUSED"
      if "list_all is_env es \<and> now (run es g') < now g + REST_TIMEOUT" for es
    proof -
      have "now (run es g') < now g + REST_TIMEOUT \<longrightarrow> st_value (state (run es g')) = FOCUSED"
        using that ok' mode' due' by (intro env_run_keeps_FOCUSED) simp_all
      with that show ?thesis by simp
    qed
    from mode' timeouts' handle' pending' later mouse_moves_FOCUSED [OF focused]
    show ?thesis by blast
  qed
  from one focused_part show ?thesis
    unfolding Let_def g_def [symmetric] g'_def [symmetric] fresh_def [symmetric]
    by blast
qed

theorem C6_mouse_move_restarts_rest_timer_witness:
  "let g = run [MouseEnter ''a'', Advance 60] (init (\<lambda>_. []));
       g' = handleMouseMove ''a'' g;
       rest = \<lparr>ev_type = REST, ev_id = None\<rparr> in
     st_value (state g) = FOCUSED \<and>
     timeouts g = [\<lparr>t_handle = 1, t_due = 100, t_event = rest\<rparr>] \<and>
     st_value (state g') = FOCUSED \<and>
     st_value (state (run (map MouseMove [''a'', ''b'']) g)) = FOCUSED \<and>
     timeouts g' = [\<lparr>t_handle = 2, t_due = 160, t_event = rest\<rparr>] \<and>
     rest_pending g' = [\<lparr>t_handle = 2, t_due = 160, t_event = rest\<rparr>] \<and>
     list_all is_env [Advance 99, Fire 1, Fire 2] \<and>
     now (run [Advance 99, Fire 1, Fire 2] g') = 159 \<and>
     st_value (state (run [Advance 99, Fire 1, Fire 2] g')) = FOCUSED \<and>
     st_value (state (run [Advance 100, Fire 2] g')) = VISIBLE"
  using C6_mouse_move_restarts_rest_timer [of "[MouseEnter ''a'', Advance 60]" "\<lambda>_. []" "''a''"]
  by (simp add: eval_defs rest_pending_def Let_def)

subsection \<open>The subscription bus\<close>

text \<open>
  C7. The claim: the pass delivers the new global state to every subscriber registered
  at commit, also when a subscriber is added or removed during the pass. The code at
  this input: listeners 1 and 2 are subscribed, and listener 1 unsubscribes itself when
  called. After the committed transition to Visible, \<^verbatim>\<open>forEach\<close> calls listener 1,
  the clean-up splices the array to \<open>[2]\<close>, index 1 is no longer there, and listener 2,
  registered at commit, is not called. (Listeners that only add subscribers do no harm:
  \<open>send_notifies_all_without_removal\<close>.)
\<close>

theorem C7_removal_skips_listener:
  "let bodies = (\<lambda>f. if f = 1 then [Unsubscribe 1] else []);
       g = run [Mount 1, Mount 2] (init bodies);
       g' = send \<lparr>ev_type = FOCUS, ev_id = Some (Some ''a'')\<rparr> g in
     subscriptions g = [1, 2] \<and>
     state g' = \<lparr>st_value = VISIBLE, st_context = 1\<rparr> \<and>
     calls g' = [ContextMerged 1 \<lparr>ctx_id = Some ''a''\<rparr>,
                 Committed \<lparr>st_value = VISIBLE, st_context = 1\<rparr>,
                 ListenerCalled 1 \<lparr>st_value = VISIBLE, st_context = 1\<rparr>] \<and>
     subscriptions g' = [2]"
  by (simp add: eval_defs Let_def)

subsection \<open>The instance binding layer\<close>

text \<open>
  C5, as claimed, fails: after Focus on \<open>a\<close> the mode is Visible and \<open>a\<close> is active;
  MouseLeave on the instance \<open>b\<close> is sent without a guard and the mode becomes
  LeavingVisible.
\<close>

theorem C5_counterexample:
  "let g = run [Focus ''a''] (init (\<lambda>_. [])) in
     active_id g = Some ''a'' \<and> st_value (state g) = VISIBLE \<and>
     st_value (state (handleMouseLeave ''b'' g)) = LEAVINGVISIBLE"
  by (simp add: eval_defs Let_def)

text \<open>
  C5, as amended. On an instance that is not the active one, Blur leaves the whole global
  record as it is. MouseLeave is sent whoever is active: it leaves the global record as
  it is exactly in the modes without a MouseLeave transition, Idle and LeavingVisible.
\<close>

theorem C5_blur_guarded:
  assumes "active_id g \<noteq> Some i"
  shows "handleBlur i g = g \<and>
         ((handleMouseLeave i g = g) =
            (st_value (state g) = IDLE \<or> st_value (state g) = LEAVINGVISIBLE))"
proof -
  let ?e = "\<lparr>ev_type = MOUSELEAVE, ev_id = None\<rparr>"
  have "handleBlur i g = g"
    using assms by (simp add: handleBlur_def)
  moreover have "handleMouseLeave i g = g"
    if "st_value (state g) = IDLE \<or> st_value (state g) = LEAVINGVISIBLE"
    using that by (auto simp add: handleMouseLeave_def send_def transition_def)
  moreover have "handleMouseLeave i g \<noteq> g"
    if "\<not> (st_value (state g) = IDLE \<or> st_value (state g) = LEAVINGVISIBLE)"
  proof -
    from that obtain target where
      m: "chart_on (st_value (state g)) (ev_type ?e) = Some target"
      and "target \<noteq> st_value (state g)"
      by (cases "st_value (state g)") simp_all
    then have "st_value (state (send ?e g)) \<noteq> st_value (state g)"
      by (simp add: send_state [OF m])
    then show ?thesis
      unfolding handleMouseLeave_def by auto
  qed
  ultimately show ?thesis by blast
qed

theorem C5_blur_guarded_witness:
  "let g = run [Focus ''a''] (init (\<lambda>_. [])) in
     active_id g \<noteq> Some ''b'' \<and> st_value (state g) = VISIBLE \<and>
     handleBlur ''b'' g = g \<and> handleMouseLeave ''b'' g \<noteq> g"
  using C5_blur_guarded [of "run [Focus ''a''] (init (\<lambda>_. []))" "''b''"]
  by (simp add: eval_defs Let_def)

subsection \<open>Placement\<close>

text \<open>
  C8. With no collision on any edge, \<^verbatim>\<open>positionTooltip\<close> returns the trigger's left
  plus the horizontal scroll offset, and the trigger's top plus the offset plus the
  trigger's height plus the vertical scroll offset. With a collision on the right edge
  and none on the left, left is the trigger's right minus the popup's width plus the
  horizontal scroll offset.
\<close>

theorem C8_placement:
  "let offset = (case offset_arg of None \<Rightarrow> 8 | Some v \<Rightarrow> v);
       c = collisions w tr tt offset;
       style = positionTooltip w (Some tr) (Some tt) offset_arg in
     (\<not> c_top c \<and> \<not> c_right c \<and> \<not> c_bottom c \<and> \<not> c_left c \<longrightarrow>
        style = [(''left'', Px (r_left tr + pageXOffset w)),
                 (''top'', Px (r_top tr + offset + r_height tr + pageYOffset w))]) \<and>
     (c_right c \<and> \<not> c_left c \<longrightarrow>
        map_of style ''left'' = Some (Px (r_right tr - r_width tt + pageXOffset w)))"
  by (simp add: positionTooltip_def Let_def)

theorem C8_placement_witness:
  "let w = \<lparr>windowWidth = 1000, windowHeight = 800, pageXOffset = 5, pageYOffset = 30\<rparr>;
       tt = \<lparr>r_top = 0, r_left = 0, r_right = 80, r_bottom = 30, r_width = 80, r_height = 30\<rparr>;
       tr1 = \<lparr>r_top = 100, r_left = 200, r_right = 260, r_bottom = 120, r_width = 60, r_height = 20\<rparr>;
       tr2 = \<lparr>r_top = 100, r_left = 950, r_right = 1010, r_bottom = 120, r_width = 60, r_height = 20\<rparr> in
     collisions w tr1 tt 8 = \<lparr>c_top = False, c_right = False, c_bottom = False, c_left = False\<rparr> \<and>
     positionTooltip w (Some tr1) (Some tt) None = [(''left'', Px (205::int)), (''top'', Px 158)] \<and>
     collisions w tr2 tt 8 = \<lparr>c_top = False, c_right = True, c_bottom = False, c_left = False\<rparr> \<and>
     map_of (positionTooltip w (Some tr2) (Some tt) None) ''left'' = Some (Px 935)"
  using C8_placement [of None
      "\<lparr>windowWidth = 1000, windowHeight = 800, pageXOffset = 5, pageYOffset = 30\<rparr> :: int window_env"
      "\<lparr>r_top = 100, r_left = 200, r_right = 260, r_bottom = 120, r_width = 60, r_height = 20\<rparr>"
      "\<lparr>r_top = 0, r_left = 0, r_right = 80, r_bottom = 30, r_width = 80, r_height = 30\<rparr>"]
    C8_placement [of None
      "\<lparr>windowWidth = 1000, windowHeight = 800, pageXOffset = 5, pageYOffset = 30\<rparr> :: int window_env"
      "\<lparr>r_top = 100, r_left = 950, r_right = 1010, r_bottom = 120, r_width = 60, r_height = 20\<rparr>"
      "\<lparr>r_top = 0, r_left = 0, r_right = 80, r_bottom = 30, r_width = 80, r_height = 30\<rparr>"]
  by (simp add: collisions_def Let_def)

text \<open>
  C9. Without a popup rectangle \<^verbatim>\<open>getStyles\<close> returns exactly
  \<^verbatim>\<open>{visibility: 'hidden'}\<close>, whatever the position function is (also one that
  throws on every call: it is not called); \<^verbatim>\<open>positionTooltip\<close> returns the empty
  object when either rectangle is absent.
\<close>

theorem C9_absent_rect:
  "getStyles position triggerRect None = Inr [(''visibility'', Keyword ''hidden'')] \<and>
   positionTooltip w None tooltipRect offset_arg = [] \<and>
   positionTooltip w triggerRect None offset_arg = []"
  by (simp add: getStyles_def positionTooltip_def split: option.split)

end
